theory Spec2Isabelle
  imports Main
begin

section \<open>The FAISS knowledge-base service (faiss\_kb\_service.py)\<close>

text \<open>
  The theory embeds the class \<open>FaissKBService\<close>. Its methods run against three
  collaborators that are not part of the file: the vector store of the vector-index
  library (read through \<open>vs.docstore._dict\<close>, changed through \<open>vs.add_embeddings\<close>
  and \<open>vs.delete\<close>, persisted through \<open>vs.save_local\<close>), the pool of handles
  (\<open>kb_faiss_pool\<close>, \<open>acquire()\<close>) and the operating system (\<open>shutil.rmtree\<close>,
  \<open>os.makedirs\<close>, \<open>os.path\<close>). Each collaborator is either a parameter of the
  method that calls it, or a small model that is named as such below.
\<close>

subsection \<open>Documents, errors and the vector store\<close>

type_synonym doc_id = string
type_synonym path = string

text \<open>
  An embedding is a sequence of floating-point numbers. The service never computes
  with the components; it only passes embeddings from the embedding model to the
  store, so integers stand in for them.
\<close>

type_synonym vector = "int list"

text \<open>
  \<open>langchain.docstore.document.Document\<close>: the text and a metadata dictionary. The
  dictionary is an association list read with \<open>map_of\<close> (Python's \<open>dict.get\<close>);
  the values the service reads (\<open>source\<close>) are file names, hence strings.
\<close>

record document =
  page_content :: string
  metadata :: "(string \<times> string) list"

datatype error =
    EmbeddingError
  | ValueError
  | AttributeError
  | KeyError
  | OSError
  | FileNotFoundError
  | NotADirectoryError
  | FileExistsError
  | PermissionError

text \<open>
  The vector store. The library keeps three structures in step: the index (one
  vector per row), \<open>index_to_docstore_id\<close> (row number to identifier) and
  \<open>docstore._dict\<close> (identifier to document). The model keeps them as one list of
  rows in insertion order, from which \<open>docstore._dict\<close> is read off.
\<close>

record faiss =
  rows :: "(doc_id \<times> vector \<times> document) list"

definition docstore_dict :: "faiss \<Rightarrow> (doc_id \<times> document) list" where
  "docstore_dict vs = map (\<lambda>(k, e, d). (k, d)) (rows vs)"

text \<open>
  \<open>FAISS.delete(ids)\<close> of the vector-index library. It raises \<open>ValueError\<close>, with
  the store untouched, for the empty list and when some identifier is not in the
  store (\<open>missing_ids = set(ids).difference(...)\<close>, \<open>if missing_ids: raise\<close>).
  Otherwise it removes the rows of the identifiers from the index and pops the
  identifiers from the docstore one by one; an identifier that occurs twice in
  the list makes the second \<open>pop\<close> raise \<open>KeyError\<close>, after the removal has begun.
  The model returns the store without the rows of the identifiers in that case
  too; what exactly the library has removed by then is not tracked, and no
  statement below depends on it.
\<close>

definition faiss_delete :: "doc_id list \<Rightarrow> faiss \<Rightarrow> error option \<times> faiss" where
  "faiss_delete ids vs =
     (if ids = [] then (Some ValueError, vs)
      else if \<not> set ids \<subseteq> set (map fst (rows vs)) then (Some ValueError, vs)
      else if \<not> distinct ids
        then (Some KeyError, vs\<lparr>rows := filter (\<lambda>r. fst r \<notin> set ids) (rows vs)\<rparr>)
      else (None, vs\<lparr>rows := filter (\<lambda>r. fst r \<notin> set ids) (rows vs)\<rparr>))"

subsection \<open>The handle, its lease and the trace of calls\<close>

text \<open>
  Every call that leaves the service is recorded, in order, in a trace; the
  temporal and the frame properties are statements about it.
\<close>

datatype event =
    Load_vector_store
  | Acquire
  | Release
  | Embed_documents "string list"
  | Add_embeddings
  | Delete "doc_id list"
  | Save_local path
  | From_vectorstore
  | Get_relevant_documents string

text \<open>
  The state an operation runs in: \<open>obj\<close> is the store owned by the handle that
  \<open>load_vector_store()\<close> returns for the service's key, \<open>disk\<close> holds the
  snapshots written by \<open>save_local\<close>, by path, and \<open>unwritable\<close> lists the paths at
  which the operating system refuses to write a snapshot (no permission, no space
  left). The lookup or construction done by the pool inside
  \<open>load_vector_store()\<close> is not part of the file; the operations are modelled from
  the handle it returns.
\<close>

record kb_state =
  obj :: faiss
  disk :: "path \<rightharpoonup> faiss"
  unwritable :: "path list"
  trace :: "event list"

definition log :: "event \<Rightarrow> kb_state \<Rightarrow> kb_state" where
  "log e s = s\<lparr>trace := trace s @ [e]\<rparr>"

text \<open>
  Modelled from the spec: \<open>acquire()\<close> of the handle (class \<open>ThreadSafeFaiss\<close>,
  which is not part of the file) grants exclusive access to the store and
  guarantees release on every exit path of the caller's critical section. So
  \<open>with self.load_vector_store().acquire() as vs: body\<close> runs the body between an
  \<open>Acquire\<close> and a \<open>Release\<close>, whether the body returns or raises.
\<close>

definition with_acquire ::
  "(kb_state \<Rightarrow> (error + 'a) \<times> kb_state) \<Rightarrow> kb_state \<Rightarrow> (error + 'a) \<times> kb_state" where
  "with_acquire body s =
     (case body (log Acquire (log Load_vector_store s)) of
        (r, s') \<Rightarrow> (r, log Release s'))"

text \<open>
  \<open>vs.save_local(path)\<close>: the snapshot at \<open>path\<close> becomes the current store, or
  the call raises \<open>OSError\<close> when the path cannot be written. A failing call
  leaves the snapshot as it was in the model; no statement below depends on what
  a failing call has written.
\<close>

definition save_local :: "path \<Rightarrow> kb_state \<Rightarrow> error option \<times> kb_state" where
  "save_local p s =
     (let s1 = log (Save_local p) s
      in if p \<in> set (unwritable s1) then (Some OSError, s1)
         else (None, s1\<lparr>disk := (disk s1)(p \<mapsto> obj s1)\<rparr>))"

subsection \<open>The service\<close>

text \<open>
  The fields of \<open>FaissKBService\<close>. \<open>vector_name\<close> is \<open>None\<close> until it is set
  (\<open>vector_name: str = None\<close>).
\<close>

record service =
  kb_name :: string
  embed_model :: string
  vector_name :: "string option"
  kb_path :: path
  vs_path :: path

text \<open>
  \<^verbatim>\<open>def get_doc_by_ids(self, ids):
      with self.load_vector_store().acquire() as vs:
          return [vs.docstore._dict.get(id) for id in ids]\<close>
\<close>

definition get_doc_by_ids ::
  "doc_id list \<Rightarrow> kb_state \<Rightarrow> (error + document option list) \<times> kb_state" where
  "get_doc_by_ids ids s =
     with_acquire (\<lambda>s1. (Inr (map (\<lambda>k. map_of (docstore_dict (obj s1)) k) ids), s1)) s"

text \<open>
  \<^verbatim>\<open>def del_doc_by_ids(self, ids):
      with self.load_vector_store().acquire() as vs:
          vs.delete(ids)\<close>
  The call of \<open>vs.delete\<close> is shared with \<open>do_delete_doc\<close>: it is logged, and the
  handle holds the store as the call left it.
\<close>

definition vs_delete :: "doc_id list \<Rightarrow> kb_state \<Rightarrow> error option \<times> kb_state" where
  "vs_delete ids s =
     (let s1 = log (Delete ids) s
      in case faiss_delete ids (obj s1) of
           (r, vs) \<Rightarrow> (r, s1\<lparr>obj := vs\<rparr>))"

definition del_doc_by_ids :: "doc_id list \<Rightarrow> kb_state \<Rightarrow> (error + unit) \<times> kb_state" where
  "del_doc_by_ids ids s =
     with_acquire
       (\<lambda>s1. case vs_delete ids s1 of
                (Some e, s2) \<Rightarrow> (Inl e, s2)
              | (None, s2) \<Rightarrow> (Inr (), s2)) s"

text \<open>\<open>KnowledgeFile\<close>: the service reads its \<open>filename\<close> only.\<close>

record knowledge_file =
  filename :: string
  knowledge_base_name :: string

text \<open>
  The list comprehension of \<open>do_delete_doc\<close>:
  \<^verbatim>\<open>[k for k, v in vs.docstore._dict.items()
     if v.metadata.get("source").lower() == kb_file.filename.lower()]\<close>
  \<open>v.metadata.get("source")\<close> is \<open>None\<close> for a document without the key, and
  \<open>None.lower()\<close> raises \<open>AttributeError\<close>, which ends the comprehension.
  \<open>str.lower\<close> maps Unicode text to lower case; it is a parameter (\<open>str_lower\<close>),
  so that nothing below depends on how it treats any character.
\<close>

fun source_ids ::
  "(string \<Rightarrow> string) \<Rightarrow> string \<Rightarrow> (doc_id \<times> document) list \<Rightarrow> error + doc_id list" where
  "source_ids str_lower fn [] = Inr []"
| "source_ids str_lower fn ((k, v) # kvs) =
     (case map_of (metadata v) ''source'' of
        None \<Rightarrow> Inl AttributeError
      | Some src \<Rightarrow>
          (case source_ids str_lower fn kvs of
             Inl e \<Rightarrow> Inl e
           | Inr ks \<Rightarrow> Inr (if str_lower src = str_lower fn then k # ks else ks)))"

text \<open>
  \<^verbatim>\<open>def do_delete_doc(self, kb_file, **kwargs):
      with self.load_vector_store().acquire() as vs:
          ids = [...]
          if len(ids) > 0:
              vs.delete(ids)
          if not kwargs.get("not_refresh_vs_cache"):
              vs.save_local(self.vs_path)
      return ids\<close>
\<close>

definition do_delete_doc ::
  "(string \<Rightarrow> string) \<Rightarrow> service \<Rightarrow> knowledge_file \<Rightarrow> bool \<Rightarrow> kb_state \<Rightarrow>
   (error + doc_id list) \<times> kb_state" where
  "do_delete_doc str_lower svc kb_file not_refresh_vs_cache s =
     with_acquire
       (\<lambda>s1. case source_ids str_lower (filename kb_file) (docstore_dict (obj s1)) of
                Inl e \<Rightarrow> (Inl e, s1)
              | Inr ids \<Rightarrow>
                  (case (if length ids > 0 then vs_delete ids s1 else (None, s1)) of
                     (Some e, s2) \<Rightarrow> (Inl e, s2)
                   | (None, s2) \<Rightarrow>
                       (case (if \<not> not_refresh_vs_cache then save_local (vs_path svc) s2
                              else (None, s2)) of
                          (Some e, s3) \<Rightarrow> (Inl e, s3)
                        | (None, s3) \<Rightarrow> (Inr ids, s3)))) s"

text \<open>
  \<^verbatim>\<open>def do_add_doc(self, docs, **kwargs):
      texts = [x.page_content for x in docs]
      metadatas = [x.metadata for x in docs]
      with self.load_vector_store().acquire() as vs:
          embeddings = vs.embeddings.embed_documents(texts)
          ids = vs.add_embeddings(text_embeddings=zip(texts, embeddings), metadatas=metadatas)
          if not kwargs.get("not_refresh_vs_cache"):
              vs.save_local(self.vs_path)
      doc_infos = [{"id": id, "metadata": doc.metadata} for id, doc in zip(ids, docs)]
      return doc_infos\<close>
  The embedding model (\<open>embed_documents\<close>) and the store's \<open>add_embeddings\<close> are
  parameters: the first returns the vectors or fails, the second returns the
  identifiers it assigned or fails, and the store as it left it either way.
\<close>

definition do_add_doc ::
  "(string list \<Rightarrow> error + vector list) \<Rightarrow>
   ((string \<times> vector) list \<Rightarrow> (string \<times> string) list list \<Rightarrow> faiss \<Rightarrow> (error + doc_id list) \<times> faiss) \<Rightarrow>
   service \<Rightarrow> document list \<Rightarrow> bool \<Rightarrow> kb_state \<Rightarrow>
   (error + (doc_id \<times> (string \<times> string) list) list) \<times> kb_state" where
  "do_add_doc embed_documents add_embeddings svc docs not_refresh_vs_cache s =
     (let texts = map page_content docs;
          metadatas = map metadata docs
      in case with_acquire
           (\<lambda>s1. let s2 = log (Embed_documents texts) s1
                  in case embed_documents texts of
                       Inl e \<Rightarrow> (Inl e, s2)
                     | Inr embeddings \<Rightarrow>
                         (let s3 = log Add_embeddings s2
                          in case add_embeddings (zip texts embeddings) metadatas (obj s3) of
                               (Inl e, vs') \<Rightarrow> (Inl e, s3\<lparr>obj := vs'\<rparr>)
                             | (Inr ids, vs') \<Rightarrow>
                                 (case (if \<not> not_refresh_vs_cache
                                        then save_local (vs_path svc) (s3\<lparr>obj := vs'\<rparr>)
                                        else (None, s3\<lparr>obj := vs'\<rparr>)) of
                                    (Some e, s4) \<Rightarrow> (Inl e, s4)
                                  | (None, s4) \<Rightarrow> (Inr ids, s4)))) s of
           (Inl e, s') \<Rightarrow> (Inl e, s')
         | (Inr ids, s') \<Rightarrow> (Inr (map (\<lambda>(k, d). (k, metadata d)) (zip ids docs)), s'))"


subsection \<open>Paths and initialisation\<close>

fun startswith :: "string \<Rightarrow> string \<Rightarrow> bool" where
  "startswith s [] = True"
| "startswith [] (c # cs) = False"
| "startswith (x # xs) (c # cs) = (x = c \<and> startswith xs cs)"

text \<open>
  \<open>os.path.join(a, b)\<close> (posixpath): an absolute \<open>b\<close> replaces \<open>a\<close>; otherwise \<open>b\<close>
  is appended, after a separator unless \<open>a\<close> is empty or already ends with one.
\<close>

definition os_path_join :: "path \<Rightarrow> string \<Rightarrow> path" where
  "os_path_join a b =
     (if startswith b ''/'' then b
      else if a = [] \<or> last a = CHR ''/'' then a @ b
      else a @ ''/'' @ b)"

text \<open>
  Modelled from the spec: \<open>get_kb_path\<close> and \<open>get_vs_path\<close> (module
  \<open>knowledge_base.utils\<close>, not part of the file) follow the directory layout
  \<open><kb_root>/<kb_name>/\<close> with a variant-specific subdirectory for the persisted
  index snapshots. The root directory is a parameter.
\<close>

definition get_kb_path :: "path \<Rightarrow> string \<Rightarrow> path" where
  "get_kb_path kb_root name = os_path_join kb_root name"

definition get_vs_path :: "path \<Rightarrow> string \<Rightarrow> string \<Rightarrow> path" where
  "get_vs_path kb_root name variant = os_path_join (get_kb_path kb_root name) variant"

text \<open>\<open>str.replace(":", "_")\<close>.\<close>

definition replace_colon :: "string \<Rightarrow> string" where
  "replace_colon s = map (\<lambda>c. if c = CHR '':'' then CHR ''_'' else c) s"

text \<open>
  \<^verbatim>\<open>def do_init(self):
      self.vector_name = self.vector_name or self.embed_model.replace(":", "_")
      self.kb_path = self.get_kb_path()
      self.vs_path = self.get_vs_path()\<close>
  Python's \<open>or\<close> takes the right operand when the left one is \<open>None\<close> or the empty
  string.
\<close>

definition do_init :: "path \<Rightarrow> service \<Rightarrow> service" where
  "do_init kb_root svc =
     (let vn = (case vector_name svc of
                  None \<Rightarrow> replace_colon (embed_model svc)
                | Some v \<Rightarrow> if v = [] then replace_colon (embed_model svc) else v)
      in svc\<lparr>vector_name := Some vn,
              kb_path := get_kb_path kb_root (kb_name svc),
              vs_path := get_vs_path kb_root (kb_name svc) vn\<rparr>)"

subsection \<open>The pool and the file system: clear and drop\<close>

type_synonym key = "string \<times> string option"

datatype node = Dir | File

datatype sys_event =
    Pool_atomic_enter
  | Pool_pop key
  | Pool_atomic_exit
  | Rmtree path
  | Makedirs path

text \<open>
  The world of \<open>do_clear_vs\<close> and \<open>do_drop_kb\<close>: the registry of the pool, the file
  system as a list of existing paths with their kind, the paths the operating
  system refuses to remove (no permission, a file in use), the paths it refuses
  to create (no permission on the parent, a name that is too long, a read-only
  file system), and the calls made.
\<close>

record world =
  pool :: "(key \<times> faiss) list"
  fs :: "(path \<times> node) list"
  undeletable :: "path list"
  uncreatable :: "path list"
  calls :: "sys_event list"

definition call :: "sys_event \<Rightarrow> world \<Rightarrow> world" where
  "call e w = w\<lparr>calls := calls w @ [e]\<rparr>"

text \<open>
  Modelled from the spec: \<open>remove(key)\<close> of the pool (\<open>kb_faiss_pool.pop\<close>, not part
  of the file) removes the entry of the key from the registry, and is no error
  for a key without an entry.
\<close>

definition pool_pop :: "key \<Rightarrow> world \<Rightarrow> world" where
  "pool_pop k w = call (Pool_pop k) (w\<lparr>pool := filter (\<lambda>e. fst e \<noteq> k) (pool w)\<rparr>)"

text \<open>\<open>with kb_faiss_pool.atomic: kb_faiss_pool.pop(key)\<close>: the removal under the pool lock.\<close>

definition pop_under_lock :: "key \<Rightarrow> world \<Rightarrow> world" where
  "pop_under_lock k w = call Pool_atomic_exit (pool_pop k (call Pool_atomic_enter w))"

text \<open>\<open>q\<close> is \<open>p\<close> itself or lies in the tree below \<open>p\<close>.\<close>

definition under :: "path \<Rightarrow> path \<Rightarrow> bool" where
  "under p q = (q = p \<or> startswith q (p @ ''/''))"


text \<open>
  \<open>shutil.rmtree(p)\<close>: it raises when \<open>p\<close> does not exist, is not a directory, or
  when something in the tree cannot be removed; otherwise the whole tree is gone.
  A failing call may have removed part of the tree before it raised; the model
  keeps all of it, and no statement below depends on what a failing call removed.
\<close>

definition rmtree :: "path \<Rightarrow> world \<Rightarrow> error option \<times> world" where
  "rmtree p w =
     (let w1 = call (Rmtree p) w
      in case map_of (fs w1) p of
           None \<Rightarrow> (Some FileNotFoundError, w1)
         | Some File \<Rightarrow> (Some NotADirectoryError, w1)
         | Some Dir \<Rightarrow>
             if list_ex (\<lambda>q. under p q) (undeletable w1) then (Some PermissionError, w1)
             else (None, w1\<lparr>fs := filter (\<lambda>e. \<not> under p (fst e)) (fs w1)\<rparr>))"

text \<open>The proper ancestors of a path, outermost first (the root \<open>/\<close> is not listed).\<close>

fun ancestors_from :: "string \<Rightarrow> string \<Rightarrow> path list" where
  "ancestors_from acc [] = []"
| "ancestors_from acc (c # cs) =
     (if c = CHR ''/'' \<and> acc \<noteq> [] \<and> last acc \<noteq> CHR ''/'' then [acc] else [])
     @ ancestors_from (acc @ [c]) cs"

definition ancestors :: "path \<Rightarrow> path list" where
  "ancestors p = ancestors_from [] p"

text \<open>
  \<open>os.makedirs(p, exist_ok=True)\<close>: every missing directory on the way to \<open>p\<close> is
  created, then \<open>p\<close>. An existing directory is accepted, whatever the operating
  system would say to creating it. A regular file on the way raises
  \<open>NotADirectoryError\<close>, and one at \<open>p\<close> itself \<open>FileExistsError\<close>; a directory
  that is missing and that the operating system refuses to create raises
  \<open>PermissionError\<close> (standing for any \<open>OSError\<close> of \<open>mkdir\<close>); the empty path
  raises \<open>FileNotFoundError\<close>. The directories created before a failure stay.
\<close>

fun makedirs_list ::
  "path list \<Rightarrow> path list \<Rightarrow> (path \<times> node) list \<Rightarrow> error option \<times> (path \<times> node) list" where
  "makedirs_list refused [] entries = (None, entries)"
| "makedirs_list refused (q # qs) entries =
     (case map_of entries q of
        Some File \<Rightarrow> (Some (if qs = [] then FileExistsError else NotADirectoryError), entries)
      | Some Dir \<Rightarrow> makedirs_list refused qs entries
      | None \<Rightarrow>
          if q \<in> set refused then (Some PermissionError, entries)
          else makedirs_list refused qs (entries @ [(q, Dir)]))"

definition makedirs :: "path \<Rightarrow> world \<Rightarrow> error option \<times> world" where
  "makedirs p w =
     (let w1 = call (Makedirs p) w
      in if p = [] then (Some FileNotFoundError, w1)
         else case makedirs_list (uncreatable w1) (ancestors p @ [p]) (fs w1) of
                (r, entries) \<Rightarrow> (r, w1\<lparr>fs := entries\<rparr>))"

text \<open>
  \<^verbatim>\<open>def do_clear_vs(self):
      with kb_faiss_pool.atomic:
          kb_faiss_pool.pop((self.kb_name, self.vector_name))
      try:
          shutil.rmtree(self.vs_path)
      except Exception:
          ...
      os.makedirs(self.vs_path, exist_ok=True)\<close>
\<close>

definition do_clear_vs :: "service \<Rightarrow> world \<Rightarrow> (error + unit) \<times> world" where
  "do_clear_vs svc w =
     (let w1 = pop_under_lock (kb_name svc, vector_name svc) w;
          w2 = snd (rmtree (vs_path svc) w1)
      in case makedirs (vs_path svc) w2 of
           (Some e, w3) \<Rightarrow> (Inl e, w3)
         | (None, w3) \<Rightarrow> (Inr (), w3))"






subsection \<open>Notions of the specification\<close>

text \<open>
  A document's \<open>source\<close> metadata equals a file name case-insensitively: the two
  are equal after \<open>str.lower\<close>.
\<close>

definition source_matches :: "(string \<Rightarrow> string) \<Rightarrow> string \<Rightarrow> document \<Rightarrow> bool" where
  "source_matches str_lower fn d =
     (case map_of (metadata d) ''source'' of
        None \<Rightarrow> False
      | Some src \<Rightarrow> str_lower src = str_lower fn)"

text \<open>Every document of the store has a \<open>source\<close> key in its metadata.\<close>

definition all_have_source :: "faiss \<Rightarrow> bool" where
  "all_have_source vs = list_all (\<lambda>r. map_of (metadata (snd (snd r))) ''source'' \<noteq> None) (rows vs)"

text \<open>
  The normalised form the specification describes for the default variant name:
  every character that is not alphanumeric is replaced (here by \<open>_\<close>).
\<close>

definition isalnum :: "char \<Rightarrow> bool" where
  "isalnum c =
     (c \<in> set ''ABCDEFGHIJKLMNOPQRSTUVWXYZabcdefghijklmnopqrstuvwxyz0123456789'')"

definition spec_normalized :: "string \<Rightarrow> string" where
  "spec_normalized s = map (\<lambda>c. if isalnum c then c else CHR ''_'') s"

text \<open>The identifiers of the rows whose document matches a file name, in store order.\<close>

definition matching_ids :: "(string \<Rightarrow> string) \<Rightarrow> string \<Rightarrow> faiss \<Rightarrow> doc_id list" where
  "matching_ids str_lower fn vs =
     map fst (filter (\<lambda>r. source_matches str_lower fn (snd (snd r))) (rows vs))"

text \<open>In a trace, event \<open>a\<close> occurs before the first occurrence of event \<open>b\<close>.\<close>

definition precedes :: "event \<Rightarrow> event \<Rightarrow> event list \<Rightarrow> bool" where
  "precedes a b tr = (a \<in> set (takeWhile (\<lambda>e. e \<noteq> b) tr))"

subsection \<open>Sample collaborators\<close>

text \<open>
  Concrete collaborators on which the theorems below are instantiated: the
  lower-casing of the ASCII letters; an embedding model that fails on the text
  \<open>bad\<close>; a store whose \<open>add_embeddings\<close> appends the rows under fresh
  identifiers; a retriever that cannot be built for a negative \<open>top_k\<close> and
  returns the first \<open>top_k\<close> documents without touching the store; and a
  retriever that returns the same documents and writes a score into the
  metadata of every stored document it returns.
\<close>

definition lower_char :: "char \<Rightarrow> char" where
  "lower_char c =
     (case map_of (zip ''ABCDEFGHIJKLMNOPQRSTUVWXYZ'' ''abcdefghijklmnopqrstuvwxyz'') c of
        Some l \<Rightarrow> l
      | None \<Rightarrow> c)"

definition ascii_lower :: "string \<Rightarrow> string" where
  "ascii_lower s = map lower_char s"

definition sample_embed :: "string list \<Rightarrow> error + vector list" where
  "sample_embed texts =
     (if ''bad'' \<in> set texts then Inl EmbeddingError
      else Inr (map (\<lambda>t. [int (length t)]) texts))"

definition sample_add ::
  "(string \<times> vector) list \<Rightarrow> (string \<times> string) list list \<Rightarrow> faiss \<Rightarrow> (error + doc_id list) \<times> faiss" where
  "sample_add text_embeddings metadatas vs =
     (let n = length (rows vs);
          ids = map (\<lambda>j. replicate (Suc (n + j)) (CHR ''i'')) [0..<length text_embeddings];
          new = map (\<lambda>(k, (t, e), m). (k, e, \<lparr>page_content = t, metadata = m\<rparr>))
                  (zip ids (zip text_embeddings metadatas))
      in (Inr ids, vs\<lparr>rows := rows vs @ new\<rparr>))"





subsection \<open>Sample data\<close>

text \<open>
  A store of three documents, two of them from the file \<open>a.txt\<close> under different
  spellings; the same store with a fourth document that has no \<open>source\<close>; the
  first store again where its snapshot cannot be written; the
  service for the knowledge base \<open>samples\<close> before and after \<open>do_init\<close>; and a
  batch of three documents whose second text makes the sample embedding model
  fail.
\<close>

definition sample_store :: faiss where
  "sample_store = \<lparr>rows =
     [(''id1'', [1], \<lparr>page_content = ''hello world'', metadata = [(''source'', ''A.txt'')]\<rparr>),
      (''id2'', [2], \<lparr>page_content = ''second'', metadata = [(''source'', ''b.txt'')]\<rparr>),
      (''id3'', [3], \<lparr>page_content = ''third'',
         metadata = [(''source'', ''a.TXT''), (''page'', ''3'')]\<rparr>)]\<rparr>"

definition sample_state :: kb_state where
  "sample_state = \<lparr>obj = sample_store, disk = Map.empty, unwritable = [], trace = []\<rparr>"

definition unsourced_state :: kb_state where
  "unsourced_state =
     \<lparr>obj = \<lparr>rows = rows sample_store
               @ [(''id4'', [4], \<lparr>page_content = ''fourth'', metadata = [(''page'', ''1'')]\<rparr>)]\<rparr>,
      disk = Map.empty, unwritable = [], trace = []\<rparr>"

definition read_only_state :: kb_state where
  "read_only_state = sample_state\<lparr>unwritable := [''/kb/samples/bge_m3'']\<rparr>"

definition fresh_service :: "string \<Rightarrow> string option \<Rightarrow> service" where
  "fresh_service model variant =
     \<lparr>kb_name = ''samples'', embed_model = model, vector_name = variant,
      kb_path = [], vs_path = []\<rparr>"

definition sample_service :: service where
  "sample_service = do_init ''/kb'' (fresh_service ''bge:m3'' None)"

definition sample_file :: knowledge_file where
  "sample_file = \<lparr>filename = ''a.txt'', knowledge_base_name = ''samples''\<rparr>"

definition sample_docs :: "document list" where
  "sample_docs =
     [\<lparr>page_content = ''one'', metadata = [(''source'', ''c.txt'')]\<rparr>,
      \<lparr>page_content = ''bad'', metadata = [(''source'', ''c.txt'')]\<rparr>,
      \<lparr>page_content = ''three'', metadata = [(''source'', ''c.txt'')]\<rparr>]"

definition one_doc :: "document list" where
  "one_doc = [\<lparr>page_content = ''one'', metadata = [(''source'', ''c.txt'')]\<rparr>]"





section \<open>Properties\<close>

subsection \<open>Auxiliary facts\<close>

lemma obj_log [simp]: "obj (log e s) = obj s"
  by (simp add: log_def)

lemma disk_log [simp]: "disk (log e s) = disk s"
  by (simp add: log_def)

lemma unwritable_log [simp]: "unwritable (log e s) = unwritable s"
  by (simp add: log_def)

lemma trace_log [simp]: "trace (log e s) = trace s @ [e]"
  by (simp add: log_def)

lemma save_local_simps [simp]:
  "fst (save_local p s) = (if p \<in> set (unwritable s) then Some OSError else None)"
  "obj (snd (save_local p s)) = obj s"
  "unwritable (snd (save_local p s)) = unwritable s"
  "trace (snd (save_local p s)) = trace s @ [Save_local p]"
  "disk (snd (save_local p s))
     = (if p \<in> set (unwritable s) then disk s else (disk s)(p \<mapsto> obj s))"
  by (simp_all add: save_local_def Let_def)

lemma with_acquire_fst:
  "fst (with_acquire body s) = fst (body (log Acquire (log Load_vector_store s)))"
  by (simp add: with_acquire_def split: prod.splits)

lemma with_acquire_snd:
  "snd (with_acquire body s) = log Release (snd (body (log Acquire (log Load_vector_store s))))"
  by (simp add: with_acquire_def split: prod.splits)

lemmas sample_defs =
  sample_state_def sample_store_def unsourced_state_def read_only_state_def sample_file_def
  sample_docs_def one_doc_def

lemma sample_service_fields:
  "vs_path sample_service = ''/kb/samples/bge_m3''"
  "kb_path sample_service = ''/kb/samples''"
  "kb_name sample_service = ''samples''"
  "vector_name sample_service = Some ''bge_m3''"
  by (simp_all add: sample_service_def fresh_service_def do_init_def replace_colon_def
        get_vs_path_def get_kb_path_def os_path_join_def Let_def)


subsection \<open>Reading documents by identifier\<close>

text \<open>
  C9. \<open>get_doc_by_ids\<close> never fails. It returns a list as long as the list of
  identifiers; position \<open>i\<close> holds the document stored under the \<open>i\<close>-th identifier
  when the docstore has that identifier, and \<open>None\<close> when it has not. The store
  and the snapshots on disk are left as they were.
\<close>

theorem get_doc_by_ids_positions:
  "\<exists>docs. fst (get_doc_by_ids ids s) = Inr docs
     \<and> length docs = length ids
     \<and> (\<forall>i < length ids.
           (ids ! i \<in> set (map fst (docstore_dict (obj s)))
              \<longrightarrow> (\<exists>d. docs ! i = Some d \<and> (ids ! i, d) \<in> set (docstore_dict (obj s))))
         \<and> (ids ! i \<notin> set (map fst (docstore_dict (obj s))) \<longrightarrow> docs ! i = None))
     \<and> obj (snd (get_doc_by_ids ids s)) = obj s
     \<and> disk (snd (get_doc_by_ids ids s)) = disk s"
proof -
  let ?dict = "docstore_dict (obj s)"
  let ?docs = "map (\<lambda>k. map_of ?dict k) ids"
  have res: "fst (get_doc_by_ids ids s) = Inr ?docs"
    by (simp add: get_doc_by_ids_def with_acquire_fst)
  have frame: "obj (snd (get_doc_by_ids ids s)) = obj s"
    "disk (snd (get_doc_by_ids ids s)) = disk s"
    by (simp_all add: get_doc_by_ids_def with_acquire_snd)
  have pos: "\<forall>i < length ids.
           (ids ! i \<in> set (map fst ?dict)
              \<longrightarrow> (\<exists>d. ?docs ! i = Some d \<and> (ids ! i, d) \<in> set ?dict))
         \<and> (ids ! i \<notin> set (map fst ?dict) \<longrightarrow> ?docs ! i = None)"
  proof (intro allI impI conjI)
    fix i assume i: "i < length ids" and "ids ! i \<in> set (map fst ?dict)"
    then obtain d where "map_of ?dict (ids ! i) = Some d"
      by (metis map_of_eq_None_iff not_Some_eq set_map)
    then show "\<exists>d. ?docs ! i = Some d \<and> (ids ! i, d) \<in> set ?dict"
      using i by (auto dest: map_of_SomeD)
  next
    fix i assume i: "i < length ids" and "ids ! i \<notin> set (map fst ?dict)"
    then show "?docs ! i = None"
      by (simp add: map_of_eq_None_iff)
  qed
  show ?thesis
    using res frame pos by (intro exI [of _ ?docs]) simp
qed

theorem get_doc_by_ids_positions_witness:
  "''id2'' \<in> set (map fst (docstore_dict (obj sample_state)))
   \<and> ''zz'' \<notin> set (map fst (docstore_dict (obj sample_state)))
   \<and> fst (get_doc_by_ids [''id2'', ''zz''] sample_state)
       = Inr [Some \<lparr>page_content = ''second'', metadata = [(''source'', ''b.txt'')]\<rparr>, None]
   \<and> obj (snd (get_doc_by_ids [''id2'', ''zz''] sample_state)) = obj sample_state"
  using get_doc_by_ids_positions [of "[''id2'', ''zz'']" sample_state]
  by (simp add: get_doc_by_ids_def with_acquire_fst sample_defs docstore_dict_def)

subsection \<open>Search\<close>




subsection \<open>Adding documents\<close>

text \<open>
  C1. When the embedding model fails on the texts of a batch, \<open>do_add_doc\<close> fails
  with the same error, and the store in memory and the snapshots on disk are as
  before: \<open>add_embeddings\<close> is never called (the calls are load, acquire, embed,
  release), so no document of the batch is inserted.
\<close>

theorem add_doc_embedding_failure:
  assumes "embed_documents (map page_content docs) = Inl e"
  shows "fst (do_add_doc embed_documents add_embeddings svc docs nr s) = Inl e
     \<and> obj (snd (do_add_doc embed_documents add_embeddings svc docs nr s)) = obj s
     \<and> disk (snd (do_add_doc embed_documents add_embeddings svc docs nr s)) = disk s
     \<and> trace (snd (do_add_doc embed_documents add_embeddings svc docs nr s))
         = trace s @ [Load_vector_store, Acquire, Embed_documents (map page_content docs), Release]"
  using assms by (simp add: do_add_doc_def with_acquire_def Let_def)

theorem add_doc_embedding_failure_witness:
  "sample_embed (map page_content sample_docs) = Inl EmbeddingError
   \<and> fst (do_add_doc sample_embed sample_add sample_service sample_docs False sample_state)
       = Inl EmbeddingError
   \<and> length (rows (obj (snd (do_add_doc sample_embed sample_add sample_service sample_docs
                                False sample_state)))) = 3
   \<and> obj (snd (do_add_doc sample_embed sample_add sample_service sample_docs False sample_state))
       = obj sample_state"
proof -
  have h: "sample_embed (map page_content sample_docs) = Inl EmbeddingError"
    by (simp add: sample_embed_def sample_docs_def)
  show ?thesis
    using h add_doc_embedding_failure [of sample_embed sample_docs EmbeddingError sample_add
        sample_service False sample_state]
    by (simp add: sample_state_def sample_store_def)
qed

text \<open>
  C4, as the code has it. The texts and the metadata of the batch are collected
  before the handle is acquired; the embeddings are computed inside the acquired
  section, as its first call. The calls of \<open>do_add_doc\<close> are, in order: load the
  handle, acquire it, embed the texts, then \<open>add_embeddings\<close> if the embedding
  succeeded, then \<open>save_local\<close> if the insertion succeeded and the caller did not
  opt out, then release.
\<close>

theorem add_doc_trace:
  "trace (snd (do_add_doc embed_documents add_embeddings svc docs nr s))
     = trace s @ [Load_vector_store, Acquire, Embed_documents (map page_content docs)]
       @ (case embed_documents (map page_content docs) of
            Inl e \<Rightarrow> []
          | Inr embeddings \<Rightarrow>
              Add_embeddings #
              (case fst (add_embeddings (zip (map page_content docs) embeddings)
                           (map metadata docs) (obj s)) of
                 Inl e \<Rightarrow> []
               | Inr ids \<Rightarrow> if nr then [] else [Save_local (vs_path svc)]))
       @ [Release]"
proof (cases "embed_documents (map page_content docs)")
  case (Inl e)
  then show ?thesis
    by (simp add: do_add_doc_def with_acquire_def Let_def)
next
  case (Inr embeddings)
  obtain r vs' where a: "add_embeddings (zip (map page_content docs) embeddings)
      (map metadata docs) (obj s) = (r, vs')"
    by (cases "add_embeddings (zip (map page_content docs) embeddings) (map metadata docs) (obj s)")
  show ?thesis
  proof (cases r)
    case (Inl e)
    with Inr a show ?thesis
      by (simp add: do_add_doc_def with_acquire_def Let_def)
  next
    case r: (Inr ids)
    show ?thesis
    proof (cases nr)
      case True
      with Inr a r show ?thesis
        by (simp add: do_add_doc_def with_acquire_def Let_def)
    next
      case False
      with Inr a r show ?thesis
        by (cases "vs_path svc \<in> set (unwritable s)")
           (simp_all add: do_add_doc_def with_acquire_def Let_def save_local_def)
    qed
  qed
qed

text \<open>
  The claim as stated fails: in a run on one document the handle is acquired
  before the embedding is computed, not after.
\<close>

theorem add_doc_embeds_inside_lease:
  "trace (snd (do_add_doc sample_embed sample_add sample_service one_doc False sample_state))
     = [Load_vector_store, Acquire, Embed_documents [''one''], Add_embeddings,
        Save_local ''/kb/samples/bge_m3'', Release]
   \<and> precedes Acquire (Embed_documents [''one''])
        (trace (snd (do_add_doc sample_embed sample_add sample_service one_doc False sample_state)))
   \<and> \<not> precedes (Embed_documents [''one'']) Acquire
        (trace (snd (do_add_doc sample_embed sample_add sample_service one_doc False sample_state)))"
proof -
  have t: "trace (snd (do_add_doc sample_embed sample_add sample_service one_doc False sample_state))
     = [Load_vector_store, Acquire, Embed_documents [''one''], Add_embeddings,
        Save_local ''/kb/samples/bge_m3'', Release]"
    by (simp add: do_add_doc_def with_acquire_def Let_def sample_embed_def sample_add_def
          save_local_def sample_service_fields sample_defs)
  show ?thesis
    unfolding t by (simp add: precedes_def)
qed

subsection \<open>Deleting by source\<close>

lemma source_ids_ok:
  "list_all (\<lambda>kv. map_of (metadata (snd kv)) ''source'' \<noteq> None) dict \<Longrightarrow>
   source_ids L fn dict = Inr (map fst (filter (\<lambda>kv. source_matches L fn (snd kv)) dict))"
  by (induction dict) (auto simp: source_matches_def)

lemma source_ids_fail:
  "\<not> list_all (\<lambda>kv. map_of (metadata (snd kv)) ''source'' \<noteq> None) dict \<Longrightarrow>
   source_ids L fn dict = Inl AttributeError"
  by (induction dict) (auto split: option.splits sum.splits)

lemma all_have_source_dict:
  "all_have_source vs \<longleftrightarrow>
   list_all (\<lambda>kv. map_of (metadata (snd kv)) ''source'' \<noteq> None) (docstore_dict vs)"
  by (auto simp: all_have_source_def docstore_dict_def list_all_iff)

lemma matching_ids_dict:
  "map fst (filter (\<lambda>kv. source_matches L fn (snd kv)) (docstore_dict vs)) = matching_ids L fn vs"
  by (induction "rows vs" arbitrary: vs)
     (auto simp: docstore_dict_def matching_ids_def filter_map o_def split_def)

lemma matching_ids_subset: "set (matching_ids L fn vs) \<subseteq> set (map fst (rows vs))"
  by (auto simp: matching_ids_def)

lemma matching_ids_distinct:
  "distinct (map fst (rows vs)) \<Longrightarrow> distinct (matching_ids L fn vs)"
  by (simp add: matching_ids_def distinct_map_filter)

lemma not_in_matching_ids:
  assumes "distinct (map fst (rows vs))" and "r \<in> set (rows vs)"
  shows "fst r \<notin> set (matching_ids L fn vs) \<longleftrightarrow> \<not> source_matches L fn (snd (snd r))"
proof
  assume "fst r \<notin> set (matching_ids L fn vs)"
  with assms(2) show "\<not> source_matches L fn (snd (snd r))"
    by (force simp: matching_ids_def)
next
  assume no: "\<not> source_matches L fn (snd (snd r))"
  show "fst r \<notin> set (matching_ids L fn vs)"
  proof
    assume "fst r \<in> set (matching_ids L fn vs)"
    then obtain r' where r': "r' \<in> set (rows vs)" "source_matches L fn (snd (snd r'))"
      "fst r' = fst r"
      by (auto simp: matching_ids_def)
    from assms r'(1,3) have "r' = r"
      by (meson eq_key_imp_eq_value prod_eqI distinct_map inj_onD)
    with r'(2) no show False by simp
  qed
qed

lemma filter_matching_ids:
  assumes "distinct (map fst (rows vs))"
  shows "filter (\<lambda>r. fst r \<notin> set (matching_ids L fn vs)) (rows vs)
       = filter (\<lambda>r. \<not> source_matches L fn (snd (snd r))) (rows vs)"
  by (rule filter_cong [OF refl]) (simp add: not_in_matching_ids [OF assms])

lemma source_ids_matching:
  "all_have_source vs \<Longrightarrow> source_ids L fn (docstore_dict vs) = Inr (matching_ids L fn vs)"
  by (simp add: all_have_source_dict source_ids_ok matching_ids_dict)

lemma faiss_delete_matching:
  assumes "distinct (map fst (rows vs))" and "matching_ids L fn vs \<noteq> []"
  shows "faiss_delete (matching_ids L fn vs) vs
     = (None, vs\<lparr>rows := filter (\<lambda>r. \<not> source_matches L fn (snd (snd r))) (rows vs)\<rparr>)"
  using matching_ids_subset [of L fn vs] matching_ids_distinct [OF assms(1), of L fn] assms(2)
  by (simp add: faiss_delete_def filter_matching_ids [OF assms(1)])

lemma filter_no_match:
  "matching_ids L fn vs = [] \<Longrightarrow>
   filter (\<lambda>r. \<not> source_matches L fn (snd (snd r))) (rows vs) = rows vs"
  by (simp add: matching_ids_def filter_empty_conv)

lemma do_delete_doc_ok_all:
  assumes "all_have_source (obj s)" and "distinct (map fst (rows (obj s)))"
    and "nr \<or> vs_path svc \<notin> set (unwritable s)"
  shows "fst (do_delete_doc L svc kb_file nr s) = Inr (matching_ids L (filename kb_file) (obj s))
    \<and> rows (obj (snd (do_delete_doc L svc kb_file nr s)))
           = filter (\<lambda>r. \<not> source_matches L (filename kb_file) (snd (snd r))) (rows (obj s))
    \<and> unwritable (snd (do_delete_doc L svc kb_file nr s)) = unwritable s"
proof -
  let ?ids = "matching_ids L (filename kb_file) (obj s)"
  have scan: "source_ids L (filename kb_file) (docstore_dict (obj s)) = Inr ?ids"
    by (rule source_ids_matching [OF assms(1)])
  show ?thesis
  proof (cases "?ids = []")
    case True
    with assms(3) scan show ?thesis
      by (auto simp: do_delete_doc_def with_acquire_def filter_no_match save_local_def Let_def)
  next
    case False
    have del: "faiss_delete ?ids (obj s)
        = (None, (obj s)\<lparr>rows := filter (\<lambda>r. \<not> source_matches L (filename kb_file) (snd (snd r)))
                                    (rows (obj s))\<rparr>)"
      by (rule faiss_delete_matching [OF assms(2) False])
    from assms(3) scan False del show ?thesis
      by (auto simp: do_delete_doc_def with_acquire_def vs_delete_def save_local_def Let_def)
  qed
qed

lemma do_delete_doc_ok:
  assumes "all_have_source (obj s)" and "distinct (map fst (rows (obj s)))"
    and "nr \<or> vs_path svc \<notin> set (unwritable s)"
  shows "fst (do_delete_doc L svc kb_file nr s) = Inr (matching_ids L (filename kb_file) (obj s))"
    and "rows (obj (snd (do_delete_doc L svc kb_file nr s)))
           = filter (\<lambda>r. \<not> source_matches L (filename kb_file) (snd (snd r))) (rows (obj s))"
    and "unwritable (snd (do_delete_doc L svc kb_file nr s)) = unwritable s"
  using do_delete_doc_ok_all [OF assms, of L kb_file] by simp_all

lemma do_delete_doc_no_attribute_error:
  assumes "all_have_source (obj s)"
  shows "fst (do_delete_doc L svc kb_file nr s) \<noteq> Inl AttributeError"
proof -
  have scan: "source_ids L (filename kb_file) (docstore_dict (obj s))
      = Inr (matching_ids L (filename kb_file) (obj s))"
    by (rule source_ids_matching [OF assms])
  show ?thesis
    by (simp add: do_delete_doc_def with_acquire_def scan vs_delete_def faiss_delete_def
          save_local_def Let_def split_beta)
qed

lemma all_have_source_filter:
  "all_have_source vs \<Longrightarrow> rows vs' = filter P (rows vs) \<Longrightarrow> all_have_source vs'"
  by (simp add: all_have_source_def list_all_iff)

lemma matching_ids_after:
  "rows vs' = filter (\<lambda>r. \<not> source_matches L fn (snd (snd r))) (rows vs) \<Longrightarrow>
   matching_ids L fn vs' = []"
  by (simp add: matching_ids_def filter_empty_conv)

lemma sample_state_sourced:
  "all_have_source (obj sample_state)"
  "distinct (map fst (rows (obj sample_state)))"
  by (simp_all add: all_have_source_def sample_defs)

lemma source_matches_sample:
  "source_matches ascii_lower ''a.txt'' \<lparr>page_content = t1, metadata = [(''source'', ''A.txt'')]\<rparr>"
  "\<not> source_matches ascii_lower ''a.txt''
       \<lparr>page_content = t2, metadata = [(''source'', ''b.txt'')]\<rparr>"
  "source_matches ascii_lower ''a.txt''
     \<lparr>page_content = t3, metadata = [(''source'', ''a.TXT''), (''page'', ''3'')]\<rparr>"
  "\<not> source_matches ascii_lower ''a.txt'' \<lparr>page_content = t4, metadata = [(''page'', ''1'')]\<rparr>"
  by (simp_all add: source_matches_def ascii_lower_def lower_char_def)

text \<open>
  C2, as the code has it. In a store where every document has a \<open>source\<close> (and
  the identifiers are distinct, being the keys of a dictionary), and when saving
  is suppressed or the snapshot can be written, \<open>do_delete_doc\<close> returns the
  identifiers of exactly the documents whose \<open>source\<close> equals the file name of
  the target after \<open>str.lower\<close>, in store order (the empty list when no document
  matches), the rows left in the store are exactly those that do not match, and
  the same call made again right afterwards returns the empty list.
\<close>

theorem delete_by_source_exact:
  assumes "all_have_source (obj s)" and "distinct (map fst (rows (obj s)))"
    and "nr \<or> vs_path svc \<notin> set (unwritable s)"
  shows "fst (do_delete_doc L svc kb_file nr s)
           = Inr (map fst (filter (\<lambda>r. source_matches L (filename kb_file) (snd (snd r)))
                             (rows (obj s))))
     \<and> rows (obj (snd (do_delete_doc L svc kb_file nr s)))
           = filter (\<lambda>r. \<not> source_matches L (filename kb_file) (snd (snd r))) (rows (obj s))
     \<and> fst (do_delete_doc L svc kb_file nr (snd (do_delete_doc L svc kb_file nr s))) = Inr []"
proof -
  let ?s' = "snd (do_delete_doc L svc kb_file nr s)"
  have r1: "fst (do_delete_doc L svc kb_file nr s) = Inr (matching_ids L (filename kb_file) (obj s))"
    by (rule do_delete_doc_ok(1) [OF assms])
  have r2: "rows (obj ?s')
      = filter (\<lambda>r. \<not> source_matches L (filename kb_file) (snd (snd r))) (rows (obj s))"
    by (rule do_delete_doc_ok(2) [OF assms])
  have a1: "all_have_source (obj ?s')"
    by (rule all_have_source_filter [OF assms(1) r2])
  have a2: "distinct (map fst (rows (obj ?s')))"
    using assms(2) by (simp add: r2 distinct_map_filter)
  have a3: "nr \<or> vs_path svc \<notin> set (unwritable ?s')"
    using assms(3) by (simp add: do_delete_doc_ok(3) [OF assms])
  have "fst (do_delete_doc L svc kb_file nr ?s')
      = Inr (matching_ids L (filename kb_file) (obj ?s'))"
    by (rule do_delete_doc_ok(1) [OF a1 a2 a3])
  then have r3: "fst (do_delete_doc L svc kb_file nr ?s') = Inr []"
    by (simp add: matching_ids_after [OF r2])
  show ?thesis
    using r1 r2 r3 by (simp add: matching_ids_def)
qed

theorem delete_by_source_exact_witness:
  "all_have_source (obj sample_state)
   \<and> distinct (map fst (rows (obj sample_state)))
   \<and> vs_path sample_service \<notin> set (unwritable sample_state)
   \<and> fst (do_delete_doc ascii_lower sample_service sample_file False sample_state)
       = Inr [''id1'', ''id3'']
   \<and> map fst (rows (obj (snd (do_delete_doc ascii_lower sample_service sample_file False
                                 sample_state))))
       = [''id2'']
   \<and> fst (do_delete_doc ascii_lower sample_service sample_file False
            (snd (do_delete_doc ascii_lower sample_service sample_file False sample_state)))
       = Inr []"
proof -
  have w: "False \<or> vs_path sample_service \<notin> set (unwritable sample_state)"
    by (simp add: sample_state_def)
  show ?thesis
    using sample_state_sourced w
      delete_by_source_exact [OF sample_state_sourced w, of ascii_lower sample_file]
    by (simp add: sample_file_def sample_state_def sample_store_def source_matches_sample)
qed

text \<open>
  The claim as stated fails for some stored states: with one document that has
  no \<open>source\<close> the call raises and removes nothing, although two identifiers
  match; and where the snapshot cannot be written the call raises after it has
  removed the matching rows, so the list is not returned.
\<close>

theorem delete_by_source_preconditions:
  "matching_ids ascii_lower (filename sample_file) (obj unsourced_state) = [''id1'', ''id3'']
   \<and> fst (do_delete_doc ascii_lower sample_service sample_file False unsourced_state)
       = Inl AttributeError
   \<and> rows (obj (snd (do_delete_doc ascii_lower sample_service sample_file False unsourced_state)))
       = rows (obj unsourced_state)
   \<and> fst (do_delete_doc ascii_lower sample_service sample_file False read_only_state)
       = Inl OSError
   \<and> map fst (rows (obj (snd (do_delete_doc ascii_lower sample_service sample_file False
                                 read_only_state))))
       = [''id2'']"
proof -
  have m: "matching_ids ascii_lower (filename sample_file) (obj unsourced_state)
      = [''id1'', ''id3'']"
    by (simp add: matching_ids_def sample_defs source_matches_sample)
  have u: "\<not> all_have_source (obj unsourced_state)"
    by (simp add: all_have_source_def sample_defs)
  then have f: "source_ids ascii_lower (filename sample_file) (docstore_dict (obj unsourced_state))
      = Inl AttributeError"
    by (simp add: all_have_source_dict source_ids_fail)
  have r1: "fst (do_delete_doc ascii_lower sample_service sample_file False unsourced_state)
       = Inl AttributeError"
    "rows (obj (snd (do_delete_doc ascii_lower sample_service sample_file False unsourced_state)))
       = rows (obj unsourced_state)"
    by (simp_all add: do_delete_doc_def with_acquire_def f)
  have a: "all_have_source (obj read_only_state)" "distinct (map fst (rows (obj read_only_state)))"
    by (simp_all add: all_have_source_def sample_defs)
  have mr: "matching_ids ascii_lower (filename sample_file) (obj read_only_state) = [''id1'', ''id3'']"
    by (simp add: matching_ids_def sample_defs source_matches_sample)
  have scan: "source_ids ascii_lower (filename sample_file) (docstore_dict (obj read_only_state))
      = Inr [''id1'', ''id3'']"
    using source_ids_matching [OF a(1), of ascii_lower "filename sample_file"] mr by simp
  have r2: "fst (do_delete_doc ascii_lower sample_service sample_file False read_only_state)
       = Inl OSError"
    "map fst (rows (obj (snd (do_delete_doc ascii_lower sample_service sample_file False
                                 read_only_state))))
       = [''id2'']"
    by (simp_all add: do_delete_doc_def with_acquire_def scan vs_delete_def faiss_delete_def
          save_local_def Let_def sample_service_fields)
       (simp_all add: sample_defs)
  show ?thesis
    using m r1 r2 by simp
qed

subsection \<open>Deleting by identifier\<close>

lemma del_doc_by_ids_unfold:
  "fst (del_doc_by_ids ids s)
     = (case fst (faiss_delete ids (obj s)) of Some e \<Rightarrow> Inl e | None \<Rightarrow> Inr ())"
  "obj (snd (del_doc_by_ids ids s)) = snd (faiss_delete ids (obj s))"
  "disk (snd (del_doc_by_ids ids s)) = disk s"
  "trace (snd (del_doc_by_ids ids s)) = trace s @ [Load_vector_store, Acquire, Delete ids, Release]"
  by (simp_all add: del_doc_by_ids_def with_acquire_def vs_delete_def Let_def split_beta
        split: option.splits)

text \<open>
  C6, as the code has it. \<open>del_doc_by_ids\<close> acquires the handle and hands the
  identifiers to the store's \<open>delete\<close>, with no handling of its own and without
  saving. When some identifier is unknown, the \<open>ValueError\<close> of the store's
  \<open>delete\<close> reaches the caller and the store is left as it was. So the deletion
  is not idempotent: after a call with a non-empty list that returned, the same
  call again fails.
\<close>

theorem del_doc_by_ids_outcome:
  "(\<not> set ids \<subseteq> set (map fst (rows (obj s))) \<longrightarrow>
      fst (del_doc_by_ids ids s) = Inl ValueError
      \<and> obj (snd (del_doc_by_ids ids s)) = obj s)
   \<and> (ids \<noteq> [] \<and> fst (del_doc_by_ids ids s) = Inr () \<longrightarrow>
      fst (del_doc_by_ids ids (snd (del_doc_by_ids ids s))) = Inl ValueError)
   \<and> disk (snd (del_doc_by_ids ids s)) = disk s
   \<and> trace (snd (del_doc_by_ids ids s)) = trace s @ [Load_vector_store, Acquire, Delete ids, Release]"
proof (intro conjI impI)
  show "disk (snd (del_doc_by_ids ids s)) = disk s"
    "trace (snd (del_doc_by_ids ids s)) = trace s @ [Load_vector_store, Acquire, Delete ids, Release]"
    by (simp_all add: del_doc_by_ids_unfold)
next
  assume "\<not> set ids \<subseteq> set (map fst (rows (obj s)))"
  then show "fst (del_doc_by_ids ids s) = Inl ValueError" "obj (snd (del_doc_by_ids ids s)) = obj s"
    by (auto simp: del_doc_by_ids_unfold faiss_delete_def)
next
  assume a: "ids \<noteq> [] \<and> fst (del_doc_by_ids ids s) = Inr ()"
  then have ok: "set ids \<subseteq> set (map fst (rows (obj s)))" "distinct ids"
    by (auto simp: del_doc_by_ids_unfold faiss_delete_def split: if_splits)
  with a have "rows (obj (snd (del_doc_by_ids ids s)))
      = filter (\<lambda>r. fst r \<notin> set ids) (rows (obj s))"
    by (auto simp: del_doc_by_ids_unfold faiss_delete_def)
  moreover from a obtain i where "i \<in> set ids" by (cases ids) auto
  ultimately have "\<not> set ids \<subseteq> set (map fst (rows (obj (snd (del_doc_by_ids ids s)))))"
    by auto
  with a show "fst (del_doc_by_ids ids (snd (del_doc_by_ids ids s))) = Inl ValueError"
    by (simp add: del_doc_by_ids_unfold(1) [of ids "snd (del_doc_by_ids ids s)"] faiss_delete_def)
qed

theorem del_doc_by_ids_outcome_witness:
  "\<not> set [''zz''] \<subseteq> set (map fst (rows (obj sample_state)))
   \<and> fst (del_doc_by_ids [''zz''] sample_state) = Inl ValueError
   \<and> obj (snd (del_doc_by_ids [''zz''] sample_state)) = obj sample_state
   \<and> [''id2''] \<noteq> []
   \<and> fst (del_doc_by_ids [''id2''] sample_state) = Inr ()
   \<and> fst (del_doc_by_ids [''id2''] (snd (del_doc_by_ids [''id2''] sample_state)))
       = Inl ValueError"
proof -
  have h: "\<not> set [''zz''] \<subseteq> set (map fst (rows (obj sample_state)))"
    "fst (del_doc_by_ids [''id2''] sample_state) = Inr ()"
    by (simp_all add: del_doc_by_ids_unfold faiss_delete_def sample_state_def sample_store_def)
  show ?thesis
    using h del_doc_by_ids_outcome [of "[''zz'']" sample_state]
      del_doc_by_ids_outcome [of "[''id2'']" sample_state]
    by simp
qed

text \<open>
  The claim as stated fails: a list with an unknown identifier makes the call
  fail, and so does the second of two calls with the same identifier.
\<close>

theorem del_doc_by_ids_unknown_raises:
  "fst (del_doc_by_ids [''id1'', ''zz''] sample_state) = Inl ValueError
   \<and> fst (del_doc_by_ids [''id1''] sample_state) = Inr ()
   \<and> fst (del_doc_by_ids [''id1''] (snd (del_doc_by_ids [''id1''] sample_state)))
       = Inl ValueError"
  by (simp add: del_doc_by_ids_unfold faiss_delete_def sample_state_def sample_store_def)

subsection \<open>Documents without a source\<close>

text \<open>
  C10. When every document of the store has a \<open>source\<close> key in its metadata, the
  scan of the metadata in \<open>do_delete_doc\<close> cannot fail, for any \<open>str.lower\<close>:
  the call never ends in the \<open>AttributeError\<close> of the scan, and it returns a
  list of identifiers when moreover the identifiers are distinct and saving is
  suppressed or possible. When some document has no \<open>source\<close>, the call fails
  with \<open>AttributeError\<close> for every target file, before anything is removed or
  saved: the store and the snapshots are as before, and neither \<open>delete\<close> nor
  \<open>save_local\<close> was called.
\<close>

theorem delete_by_source_total_iff:
  "(all_have_source (obj s) \<longrightarrow>
      (\<exists>ids. source_ids L (filename kb_file) (docstore_dict (obj s)) = Inr ids)
      \<and> fst (do_delete_doc L svc kb_file nr s) \<noteq> Inl AttributeError
      \<and> (distinct (map fst (rows (obj s))) \<and> (nr \<or> vs_path svc \<notin> set (unwritable s)) \<longrightarrow>
           (\<exists>ids. fst (do_delete_doc L svc kb_file nr s) = Inr ids)))
   \<and> (\<not> all_have_source (obj s) \<longrightarrow>
      fst (do_delete_doc L svc kb_file nr s) = Inl AttributeError
      \<and> obj (snd (do_delete_doc L svc kb_file nr s)) = obj s
      \<and> disk (snd (do_delete_doc L svc kb_file nr s)) = disk s
      \<and> trace (snd (do_delete_doc L svc kb_file nr s))
          = trace s @ [Load_vector_store, Acquire, Release])"
proof (intro conjI impI)
  assume a: "all_have_source (obj s)"
  show "\<exists>ids. source_ids L (filename kb_file) (docstore_dict (obj s)) = Inr ids"
    by (simp add: source_ids_matching [OF a])
  show "fst (do_delete_doc L svc kb_file nr s) \<noteq> Inl AttributeError"
    by (rule do_delete_doc_no_attribute_error [OF a])
  assume "distinct (map fst (rows (obj s))) \<and> (nr \<or> vs_path svc \<notin> set (unwritable s))"
  then show "\<exists>ids. fst (do_delete_doc L svc kb_file nr s) = Inr ids"
    by (simp add: do_delete_doc_ok(1) [OF a])
next
  assume "\<not> all_have_source (obj s)"
  then have f: "source_ids L (filename kb_file) (docstore_dict (obj s)) = Inl AttributeError"
    by (simp add: all_have_source_dict source_ids_fail)
  show "fst (do_delete_doc L svc kb_file nr s) = Inl AttributeError"
    "obj (snd (do_delete_doc L svc kb_file nr s)) = obj s"
    "disk (snd (do_delete_doc L svc kb_file nr s)) = disk s"
    "trace (snd (do_delete_doc L svc kb_file nr s)) = trace s @ [Load_vector_store, Acquire, Release]"
    by (simp_all add: do_delete_doc_def with_acquire_def f)
qed

theorem delete_by_source_total_iff_witness:
  "all_have_source (obj sample_state)
   \<and> distinct (map fst (rows (obj sample_state)))
   \<and> vs_path sample_service \<notin> set (unwritable sample_state)
   \<and> source_ids ascii_lower (filename sample_file) (docstore_dict (obj sample_state))
       = Inr [''id1'', ''id3'']
   \<and> \<not> all_have_source (obj unsourced_state)
   \<and> fst (do_delete_doc ascii_lower sample_service sample_file False unsourced_state)
       = Inl AttributeError
   \<and> length (rows (obj (snd (do_delete_doc ascii_lower sample_service sample_file False
                                unsourced_state)))) = 4
   \<and> trace (snd (do_delete_doc ascii_lower sample_service sample_file False unsourced_state))
       = [Load_vector_store, Acquire, Release]"
proof -
  have u: "\<not> all_have_source (obj unsourced_state)"
    by (simp add: all_have_source_def sample_defs)
  have w: "vs_path sample_service \<notin> set (unwritable sample_state)"
    by (simp add: sample_state_def)
  have ids: "source_ids ascii_lower (filename sample_file) (docstore_dict (obj sample_state))
      = Inr [''id1'', ''id3'']"
    by (simp add: sample_defs docstore_dict_def ascii_lower_def lower_char_def)
  show ?thesis
    using sample_state_sourced u w ids
      delete_by_source_total_iff [where s = sample_state and L = ascii_lower
        and kb_file = sample_file and nr = False and svc = sample_service]
      delete_by_source_total_iff [where s = unsourced_state and L = ascii_lower
        and kb_file = sample_file and nr = False and svc = sample_service]
    by (simp add: unsourced_state_def sample_store_def)
qed

subsection \<open>Initialisation\<close>

text \<open>
  C5, as the code has it. When the variant name is not set (\<open>None\<close> or the empty
  string), \<open>do_init\<close> sets it to the identifier of the embedding model in which
  every colon is replaced by an underscore and every other character, alphanumeric
  or not, is kept; a variant name that is set is kept.
\<close>

theorem do_init_vector_name:
  "(vector_name svc = None \<or> vector_name svc = Some [] \<longrightarrow>
      vector_name (do_init kb_root svc) = Some (replace_colon (embed_model svc)))
   \<and> (\<forall>v. vector_name svc = Some v \<and> v \<noteq> [] \<longrightarrow> vector_name (do_init kb_root svc) = Some v)
   \<and> length (replace_colon (embed_model svc)) = length (embed_model svc)
   \<and> (\<forall>i < length (embed_model svc).
         replace_colon (embed_model svc) ! i
           = (if embed_model svc ! i = CHR '':'' then CHR ''_'' else embed_model svc ! i))"
  by (auto simp: do_init_def Let_def replace_colon_def)

theorem do_init_vector_name_witness:
  "vector_name (do_init ''/kb'' (fresh_service ''bge:m3'' (None))) = Some ''bge_m3''
   \<and> vector_name (do_init ''/kb'' (fresh_service ''bge:m3'' (Some []))) = Some ''bge_m3''
   \<and> vector_name (do_init ''/kb'' (fresh_service ''bge:m3'' (Some ''v1''))) = Some ''v1''
   \<and> (3::nat) < length ''bge:m3'' \<and> replace_colon ''bge:m3'' ! 3 = CHR ''_''"
  using
    do_init_vector_name [of "fresh_service ''bge:m3'' (None)" "''/kb''"]
    do_init_vector_name [of "fresh_service ''bge:m3'' (Some [])" "''/kb''"]
    do_init_vector_name [of "fresh_service ''bge:m3'' (Some ''v1'')" "''/kb''"]
  by (simp add: replace_colon_def fresh_service_def)

text \<open>
  The claim as stated fails: the hyphen of \<open>bge-m3\<close> is not alphanumeric, and it
  is not replaced; the normalised form of the specification would be \<open>bge_m3\<close>.
\<close>

theorem do_init_keeps_other_characters:
  "vector_name (do_init ''/kb'' (fresh_service ''bge-m3'' (None))) = Some ''bge-m3''
   \<and> \<not> isalnum (CHR ''-'')
   \<and> spec_normalized ''bge-m3'' = ''bge_m3''"
  by (simp add: do_init_def fresh_service_def Let_def replace_colon_def isalnum_def
        spec_normalized_def)

subsection \<open>Existence of a document\<close>





subsection \<open>Clear and drop\<close>

lemma call_simps [simp]:
  "pool (call e w) = pool w"
  "fs (call e w) = fs w"
  "undeletable (call e w) = undeletable w"
  "uncreatable (call e w) = uncreatable w"
  "calls (call e w) = calls w @ [e]"
  by (simp_all add: call_def)

lemma rmtree_frame [simp]:
  "pool (snd (rmtree p w)) = pool w"
  "undeletable (snd (rmtree p w)) = undeletable w"
  "uncreatable (snd (rmtree p w)) = uncreatable w"
  "calls (snd (rmtree p w)) = calls w @ [Rmtree p]"
  by (simp_all add: rmtree_def Let_def split: option.splits node.splits)

lemma makedirs_frame [simp]:
  "pool (snd (makedirs p w)) = pool w"
  "undeletable (snd (makedirs p w)) = undeletable w"
  "uncreatable (snd (makedirs p w)) = uncreatable w"
  "calls (snd (makedirs p w)) = calls w @ [Makedirs p]"
  by (simp_all add: makedirs_def Let_def split_beta)

lemma pool_pop_frame [simp]:
  "pool (pool_pop k w) = filter (\<lambda>e. fst e \<noteq> k) (pool w)"
  "fs (pool_pop k w) = fs w"
  "undeletable (pool_pop k w) = undeletable w"
  "uncreatable (pool_pop k w) = uncreatable w"
  "calls (pool_pop k w) = calls w @ [Pool_pop k]"
  by (simp_all add: pool_pop_def)

lemma pop_under_lock_frame [simp]:
  "fs (pop_under_lock k w) = fs w"
  "undeletable (pop_under_lock k w) = undeletable w"
  "uncreatable (pop_under_lock k w) = uncreatable w"
  "pool (pop_under_lock k w) = filter (\<lambda>e. fst e \<noteq> k) (pool w)"
  "calls (pop_under_lock k w) = calls w @ [Pool_atomic_enter, Pool_pop k, Pool_atomic_exit]"
  by (simp_all add: pop_under_lock_def)















lemma under_refl [simp]: "under p p"
  by (simp add: under_def)







lemma do_clear_vs_unfold:
  "fst (do_clear_vs svc w)
     = (case fst (makedirs (vs_path svc)
                   (snd (rmtree (vs_path svc) (pop_under_lock (kb_name svc, vector_name svc) w)))) of
          Some e \<Rightarrow> Inl e | None \<Rightarrow> Inr ())"
  "snd (do_clear_vs svc w)
     = snd (makedirs (vs_path svc)
              (snd (rmtree (vs_path svc) (pop_under_lock (kb_name svc, vector_name svc) w))))"
  by (simp_all add: do_clear_vs_def Let_def split_beta split: option.splits)


lemma do_clear_vs_undeletable [simp]:
  "undeletable (snd (do_clear_vs svc w)) = undeletable w"
  by (simp add: do_clear_vs_unfold)







end
